theory Spec2Isabelle
  imports Complex_Main
begin

section \<open>JavaScript strings\<close>

text \<open>
  A JavaScript string is a sequence of code units. The model uses \<^typ>\<open>string\<close>, so it
  covers the strings whose code units are below 256 (ASCII and Latin-1); on these the
  built-in string methods used by the extension are as follows.
\<close>

definition isWhiteSpace :: "char \<Rightarrow> bool" where
  \<comment> \<open>the code units below 256 that \<open>String.prototype.trim\<close> strips: TAB, LF, VT, FF, CR,
      SPACE and NO-BREAK SPACE\<close>
  "isWhiteSpace c \<longleftrightarrow>
     c = CHR 0x09 \<or> c = CHR 0x0A \<or> c = CHR 0x0B \<or> c = CHR 0x0C \<or> c = CHR 0x0D \<or>
     c = CHR 0x20 \<or> c = CHR 0xA0"

definition trim :: "string \<Rightarrow> string" where
  "trim s = rev (dropWhile isWhiteSpace (rev (dropWhile isWhiteSpace s)))"

definition lowerChar :: "char \<Rightarrow> char" where
  \<comment> \<open>\<open>A\<close>--\<open>Z\<close> and the Latin-1 capitals \<open>0xC0\<close>--\<open>0xDE\<close> (not the sign \<open>0xD7\<close>) move up
      by 32; every other code unit below 256 is left alone\<close>
  "lowerChar c =
     (let n = (of_char c :: nat)
      in if (65 \<le> n \<and> n \<le> 90) \<or> (192 \<le> n \<and> n \<le> 222 \<and> n \<noteq> 215)
         then char_of (n + 32) else c)"

definition toLowerCase :: "string \<Rightarrow> string" where
  "toLowerCase s = map lowerChar s"

definition startsWith :: "string \<Rightarrow> string \<Rightarrow> bool" where
  "startsWith s p \<longleftrightarrow> take (length p) s = p"

definition endsWith :: "string \<Rightarrow> string \<Rightarrow> bool" where
  "endsWith s p \<longleftrightarrow> length p \<le> length s \<and> drop (length s - length p) s = p"

fun includesStr :: "string \<Rightarrow> string \<Rightarrow> bool" where
  "includesStr [] p = (p = [])"
| "includesStr (c # cs) p = (startsWith (c # cs) p \<or> includesStr cs p)"

fun split_on :: "char \<Rightarrow> string \<Rightarrow> string list" where
  \<comment> \<open>\<open>s.split(sep)\<close> for a one-character separator: never empty, \<open>''''.split(sep) = ['''']\<close>\<close>
  "split_on sep [] = [[]]"
| "split_on sep (c # cs) =
     (if c = sep then [] # split_on sep cs
      else (case split_on sep cs of
              [] \<Rightarrow> [[c]]
            | w # ws \<Rightarrow> (c # w) # ws))"

section \<open>Domain rules\<close>

subsection \<open>normalizeDomain\<close>

definition stripProtocol :: "string \<Rightarrow> string" where
  \<comment> \<open>\<open>domain.replace(/^https?:\/\//, '')\<close>\<close>
  "stripProtocol d =
     (if startsWith d ''http://'' then drop 7 d
      else if startsWith d ''https://'' then drop 8 d
      else d)"

definition stripWww :: "string \<Rightarrow> string" where
  \<comment> \<open>\<open>domain.replace(/^www\./, '')\<close>\<close>
  "stripWww d = (if startsWith d ''www.'' then drop 4 d else d)"

definition stripTrailingSlash :: "string \<Rightarrow> string" where
  \<comment> \<open>\<open>domain.replace(/\/$/, '')\<close>\<close>
  "stripTrailingSlash d = (if endsWith d ''/'' then butlast d else d)"

definition normalizeDomain :: "string \<Rightarrow> string" where
  "normalizeDomain input =
     (let domain0 = toLowerCase (trim input);
          domain1 = stripProtocol domain0;
          domain2 = stripWww domain1;
          domain3 = stripTrailingSlash domain2
      in takeWhile (\<lambda>c. c \<noteq> CHR ''/'') domain3)"

subsection \<open>isValidDomain\<close>

definition isAlpha :: "char \<Rightarrow> bool" where
  \<comment> \<open>the class \<open>[a-z]\<close> under the \<open>i\<close> flag\<close>
  "isAlpha c \<longleftrightarrow>
     (let n = (of_char c :: nat) in (97 \<le> n \<and> n \<le> 122) \<or> (65 \<le> n \<and> n \<le> 90))"

definition isAlnum :: "char \<Rightarrow> bool" where
  \<comment> \<open>the class \<open>[a-z0-9]\<close> under the \<open>i\<close> flag\<close>
  "isAlnum c \<longleftrightarrow> isAlpha c \<or> (let n = (of_char c :: nat) in 48 \<le> n \<and> n \<le> 57)"

definition isAlnumHyphen :: "char \<Rightarrow> bool" where
  \<comment> \<open>the class \<open>[a-z0-9-]\<close> under the \<open>i\<close> flag\<close>
  "isAlnumHyphen c \<longleftrightarrow> isAlnum c \<or> c = CHR ''-''"

definition labelRegex :: "string \<Rightarrow> bool" where
  \<comment> \<open>the whole of \<open>s\<close> matches \<open>[a-z0-9]([a-z0-9-]{0,61}[a-z0-9])?\<close>\<close>
  "labelRegex s \<longleftrightarrow>
     (case s of
        [] \<Rightarrow> False
      | c # rest \<Rightarrow>
          isAlnum c \<and>
          (rest = [] \<or>
           (length (butlast rest) \<le> 61 \<and> list_all isAlnumHyphen (butlast rest) \<and>
            isAlnum (last rest))))"

definition domainRegex :: "string \<Rightarrow> bool" where
  \<comment> \<open>\<open>/^([a-z0-9]([a-z0-9-]{0,61}[a-z0-9])?\.)+[a-z]{2,}$/i.test(s)\<close>: no class of the
      pattern contains the dot, so the dots of \<open>s\<close> are the literal dots of the pattern:
      one or more label groups, each followed by a dot, then the final alphabetic run\<close>
  "domainRegex s \<longleftrightarrow>
     (let parts = split_on (CHR ''.'') s
      in 2 \<le> length parts \<and>
         list_all labelRegex (butlast parts) \<and>
         2 \<le> length (last parts) \<and> list_all isAlpha (last parts))"

definition isValidDomain :: "string \<Rightarrow> bool" where
  "isValidDomain domain \<longleftrightarrow>
     (if domain = [] then False
      else if \<not> domainRegex domain then False
      else if length domain > 253 then False
      else
        (let labels = split_on (CHR ''.'') domain
         in if length labels < 2 then False
            else if length (last labels) < 2 then False
            else list_all
                   (\<lambda>label. \<not> (length label > 63 \<or> length label = 0) \<and>
                            \<not> (startsWith label ''-'' \<or> endsWith label ''-''))
                   labels))"

section \<open>Block list store\<close>

record BlockedDomain =
  domain :: string
  enabled :: bool

datatype error = Error string

definition InvalidFormat :: error where
  \<comment> \<open>\<open>new Error('Invalid domain format')\<close>\<close>
  "InvalidFormat = Error ''Invalid domain format''"

definition DuplicateEntry :: error where
  \<comment> \<open>\<open>new Error('Domain already exists')\<close>\<close>
  "DuplicateEntry = Error ''Domain already exists''"

text \<open>
  Modelled from the spec: \<open>storage.set\<close> of \<open>createStorage\<close> (\<open>../base/index.js\<close>, not among
  the sources). It reads the current collection, computes the new one with the updater and
  commits it as one unit; an updater that throws commits nothing and the exception reaches
  the caller. The result pairs the outcome of the call with the collection afterwards.
\<close>

definition storage_set ::
  "(BlockedDomain list \<Rightarrow> error + BlockedDomain list) \<Rightarrow> BlockedDomain list \<Rightarrow>
   (error + unit) \<times> BlockedDomain list" where
  "storage_set update currentDomains =
     (case update currentDomains of
        Inl e \<Rightarrow> (Inl e, currentDomains)
      | Inr newDomains \<Rightarrow> (Inr (), newDomains))"

definition add :: "string \<Rightarrow> BlockedDomain list \<Rightarrow> (error + unit) \<times> BlockedDomain list" where
  "add domainArg stored =
     (let normalized = normalizeDomain domainArg
      in if normalized = [] \<or> \<not> isValidDomain normalized then (Inl InvalidFormat, stored)
         else storage_set
                (\<lambda>currentDomains.
                   if list_ex (\<lambda>d. domain d = normalized) currentDomains
                   then Inl DuplicateEntry
                   else Inr (currentDomains @ [\<lparr>domain = normalized, enabled = True\<rparr>]))
                stored)"

definition remove :: "string \<Rightarrow> BlockedDomain list \<Rightarrow> (error + unit) \<times> BlockedDomain list" where
  "remove domainArg stored =
     storage_set (\<lambda>currentDomains. Inr (filter (\<lambda>d. domain d \<noteq> domainArg) currentDomains))
       stored"

definition toggle :: "string \<Rightarrow> BlockedDomain list \<Rightarrow> (error + unit) \<times> BlockedDomain list" where
  "toggle domainArg stored =
     storage_set
       (\<lambda>currentDomains.
          Inr (map (\<lambda>d. if domain d = domainArg then d\<lparr>enabled := \<not> enabled d\<rparr> else d)
                 currentDomains))
       stored"

definition isBlocked :: "string \<Rightarrow> BlockedDomain list \<Rightarrow> bool" where
  \<comment> \<open>\<open>storage.get()\<close> is the second argument; \<open>find\<close> returns the first match\<close>
  "isBlocked domainArg domains =
     (let normalized = normalizeDomain domainArg
      in case find (\<lambda>d. domain d = normalized) domains of
           Some blocked \<Rightarrow> enabled blocked
         | None \<Rightarrow> False)"

text \<open>A sequence of store operations, run from left to right; a failed \<open>add\<close> changes nothing.\<close>

datatype operation = Add string | Remove string | Toggle string

fun apply_operation :: "operation \<Rightarrow> BlockedDomain list \<Rightarrow> BlockedDomain list" where
  "apply_operation (Add x) stored = snd (add x stored)"
| "apply_operation (Remove x) stored = snd (remove x stored)"
| "apply_operation (Toggle x) stored = snd (toggle x stored)"

fun run :: "operation list \<Rightarrow> BlockedDomain list \<Rightarrow> BlockedDomain list" where
  "run [] stored = stored"
| "run (operation # rest) stored = run rest (apply_operation operation stored)"

section \<open>Deserialization of the persisted value\<close>

text \<open>
  The values \<open>JSON.parse\<close> returns. An object lists its own properties, each name once.
\<close>

datatype json =
  JNull
| JBool bool
| JNumber rat
| JString string
| JArray "json list"
| JObject "(string \<times> json) list"

text \<open>
  The argument \<open>text: unknown\<close> of \<open>deserialize\<close>: \<open>undefined\<close>, \<open>null\<close>, or any other value,
  given by its conversion \<open>String(text)\<close> (a string is its own conversion).
\<close>

datatype unknown = Undefined | Null | Other string

fun truthy :: "json \<Rightarrow> bool" where
  "truthy JNull = False"
| "truthy (JBool b) = b"
| "truthy (JNumber n) = (n \<noteq> 0)"
| "truthy (JString s) = (s \<noteq> [])"
| "truthy (JArray xs) = True"
| "truthy (JObject kvs) = True"

fun typeof :: "json option \<Rightarrow> string" where
  \<comment> \<open>\<open>None\<close> is \<open>undefined\<close>\<close>
  "typeof None = ''undefined''"
| "typeof (Some JNull) = ''object''"
| "typeof (Some (JBool b)) = ''boolean''"
| "typeof (Some (JNumber n)) = ''number''"
| "typeof (Some (JString s)) = ''string''"
| "typeof (Some (JArray xs)) = ''object''"
| "typeof (Some (JObject kvs)) = ''object''"

fun property :: "json \<Rightarrow> string \<Rightarrow> json option" where
  \<comment> \<open>\<open>item.domain\<close> and \<open>item.enabled\<close> on a parsed value that is not \<open>null\<close>: an object
      has the properties the text gave it, every other value has neither of the two\<close>
  "property (JObject kvs) key = map_of kvs key"
| "property item key = None"

definition isBlockedDomain :: "json \<Rightarrow> bool" where
  \<comment> \<open>the predicate of \<open>parsed.filter\<close>\<close>
  "isBlockedDomain item \<longleftrightarrow>
     truthy item \<and> typeof (Some item) = ''object'' \<and>
     typeof (property item ''domain'') = ''string'' \<and>
     typeof (property item ''enabled'') = ''boolean''"

definition deserialize :: "(string \<rightharpoonup> json) \<Rightarrow> unknown \<Rightarrow> json list" where
  \<comment> \<open>\<open>JSON_parse textStr = None\<close>: \<open>JSON.parse\<close> throws, which the \<open>catch\<close> turns into \<open>[]\<close>\<close>
  "deserialize JSON_parse text =
     (case text of
        Undefined \<Rightarrow> []
      | Null \<Rightarrow> []
      | Other textStr \<Rightarrow>
          if textStr = ''undefined'' \<or> textStr = ''null'' \<or> trim textStr = [] then []
          else
            (case JSON_parse textStr of
               None \<Rightarrow> []
             | Some (JArray parsed) \<Rightarrow>
                 if length parsed > 0 \<and> typeof (Some (hd parsed)) = ''string''
                 then map (\<lambda>d. JObject [(''domain'', d), (''enabled'', JBool True)]) parsed
                 else filter isBlockedDomain parsed
             | Some other \<Rightarrow> []))"

text \<open>
  The store reads the deserialized array at the type \<open>BlockedDomain[]\<close>: an element with a
  string \<open>domain\<close> and a boolean \<open>enabled\<close> is an entry.
\<close>

definition asBlockedDomain :: "json \<Rightarrow> BlockedDomain option" where
  "asBlockedDomain item =
     (case (property item ''domain'', property item ''enabled'') of
        (Some (JString s), Some (JBool b)) \<Rightarrow> Some \<lparr>domain = s, enabled = b\<rparr>
      | _ \<Rightarrow> None)"

fun asBlockedDomains :: "json list \<Rightarrow> BlockedDomain list option" where
  "asBlockedDomains [] = Some []"
| "asBlockedDomains (item # items) =
     (case (asBlockedDomain item, asBlockedDomains items) of
        (Some d, Some ds) \<Rightarrow> Some (d # ds)
      | _ \<Rightarrow> None)"

section \<open>Navigation guard\<close>

text \<open>
  What an evaluation does to the outside, in order: the call of
  \<open>blockedDomainsStorage.isBlocked\<close> (the one read of the store) with its argument, the call
  \<open>chrome.tabs.update(tabId, {url})\<close>, and the \<open>console.error\<close> of the \<open>catch\<close>.
\<close>

datatype effect = StoreQuery string | TabsUpdate int string | ConsoleError

definition getURL :: "string \<Rightarrow> string \<Rightarrow> string" where
  \<comment> \<open>\<open>chrome.runtime.getURL(path)\<close> for the extension with the given id\<close>
  "getURL extensionId path = ''chrome-extension://'' @ extensionId @ ''/'' @ path"

definition checkAndBlockDomain ::
  "(string \<rightharpoonup> string) \<Rightarrow> string \<Rightarrow> BlockedDomain list \<Rightarrow> string \<Rightarrow> int \<Rightarrow> effect list" where
  \<comment> \<open>\<open>URL_hostname url\<close> is \<open>new URL(url).hostname\<close>, \<open>None\<close> when the constructor throws\<close>
  "checkAndBlockDomain URL_hostname extensionId stored url tabId =
     (if startsWith url ''chrome://'' \<or> startsWith url ''chrome-extension://'' \<or>
         startsWith url ''about:'' \<or> includesStr url ''blocked.html''
      then []
      else
        (case URL_hostname url of
           None \<Rightarrow> [ConsoleError]
         | Some hostname \<Rightarrow>
             (let normalized = normalizeDomain hostname
              in StoreQuery normalized #
                 (if isBlocked normalized stored
                  then [TabsUpdate tabId (getURL extensionId ''blocked.html'')]
                  else []))))"

definition onCommitted ::
  "(string \<rightharpoonup> string) \<Rightarrow> string \<Rightarrow> BlockedDomain list \<Rightarrow> int \<Rightarrow> string \<Rightarrow> int \<Rightarrow> effect list"
  where
  \<comment> \<open>the listener of \<open>chrome.webNavigation.onCommitted\<close>, on \<open>details.frameId\<close>,
      \<open>details.url\<close> and \<open>details.tabId\<close>\<close>
  "onCommitted URL_hostname extensionId stored frameId url tabId =
     (if frameId = 0 then checkAndBlockDomain URL_hostname extensionId stored url tabId
      else [])"

definition onUpdated ::
  "(string \<rightharpoonup> string) \<Rightarrow> string \<Rightarrow> BlockedDomain list \<Rightarrow> int \<Rightarrow> string option \<Rightarrow>
   string option \<Rightarrow> effect list" where
  \<comment> \<open>the listener of \<open>chrome.tabs.onUpdated\<close>, on \<open>changeInfo.status\<close> and \<open>tab.url\<close>\<close>
  "onUpdated URL_hostname extensionId stored tabId status tabUrl =
     (case tabUrl of
        Some url \<Rightarrow>
          if status = Some ''loading'' \<and> url \<noteq> []
          then checkAndBlockDomain URL_hostname extensionId stored url tabId
          else []
      | None \<Rightarrow> [])"

section \<open>Normalization\<close>

lemma lowerChar_idem: "lowerChar (lowerChar c) = lowerChar c"
proof -
  define n where "n = (of_char c :: nat)"
  show ?thesis
  proof (cases "(65 \<le> n \<and> n \<le> 90) \<or> (192 \<le> n \<and> n \<le> 222 \<and> n \<noteq> 215)")
    case True
    then have lc: "lowerChar c = char_of (n + 32)"
      by (simp add: lowerChar_def n_def Let_def)
    from True have "(n + 32) mod 256 = n + 32" by auto
    then have "(of_char (char_of (n + 32)) :: nat) = n + 32" by simp
    with True have "lowerChar (char_of (n + 32)) = char_of (n + 32)"
      by (auto simp add: lowerChar_def Let_def)
    with lc show ?thesis by simp
  next
    case False
    then have "lowerChar c = c"
      unfolding lowerChar_def Let_def n_def by auto
    then show ?thesis by simp
  qed
qed

lemma toLowerCase_fixed: "\<forall>c \<in> set s. lowerChar c = c \<Longrightarrow> toLowerCase s = s"
  by (simp add: toLowerCase_def map_idI)

lemma toLowerCase_chars: "c \<in> set (toLowerCase s) \<Longrightarrow> lowerChar c = c"
  by (auto simp add: toLowerCase_def lowerChar_idem)

lemma dropWhile_same_length: "length (dropWhile P xs) = length xs \<Longrightarrow> dropWhile P xs = xs"
proof -
  assume eq: "length (dropWhile P xs) = length xs"
  have "length (takeWhile P xs) + length (dropWhile P xs) = length xs"
    by (metis length_append takeWhile_dropWhile_id)
  with eq have "takeWhile P xs = []" by simp
  then show ?thesis
    by (metis append_Nil takeWhile_dropWhile_id)
qed

lemma length_trim: "length (trim s) \<le> length s"
proof -
  have "length (trim s) \<le> length (dropWhile isWhiteSpace s)"
    unfolding trim_def by (metis length_dropWhile_le length_rev)
  also have "\<dots> \<le> length s" by (rule length_dropWhile_le)
  finally show ?thesis .
qed

lemma trim_same_length: "length (trim s) = length s \<Longrightarrow> trim s = s"
proof -
  assume eq: "length (trim s) = length s"
  have a: "length (trim s) \<le> length (dropWhile isWhiteSpace s)"
    unfolding trim_def by (metis length_dropWhile_le length_rev)
  have b: "length (dropWhile isWhiteSpace s) \<le> length s" by (rule length_dropWhile_le)
  from eq a b have "length (dropWhile isWhiteSpace s) = length s" by simp
  then have front: "dropWhile isWhiteSpace s = s" by (rule dropWhile_same_length)
  with eq have "length (dropWhile isWhiteSpace (rev s)) = length (rev s)"
    by (simp add: trim_def)
  then have "dropWhile isWhiteSpace (rev s) = rev s" by (rule dropWhile_same_length)
  with front show ?thesis by (simp add: trim_def)
qed

lemma startsWith_length: "startsWith s p \<Longrightarrow> length p \<le> length s"
  unfolding startsWith_def by (metis length_take min.cobounded1)

lemma startsWith_set: "startsWith s p \<Longrightarrow> set p \<subseteq> set s"
  unfolding startsWith_def by (metis set_take_subset)

lemma endsWith_set: "endsWith s p \<Longrightarrow> set p \<subseteq> set s"
  unfolding endsWith_def by (metis set_drop_subset)

lemma set_stripProtocol: "set (stripProtocol d) \<subseteq> set d"
  by (auto simp add: stripProtocol_def dest: in_set_dropD)

lemma set_stripWww: "set (stripWww d) \<subseteq> set d"
  by (auto simp add: stripWww_def dest: in_set_dropD)

lemma set_stripTrailingSlash: "set (stripTrailingSlash d) \<subseteq> set d"
  by (auto simp add: stripTrailingSlash_def dest: in_set_butlastD)

lemma length_stripProtocol: "length (stripProtocol d) \<le> length d"
  by (simp add: stripProtocol_def)

lemma length_stripWww: "length (stripWww d) \<le> length d"
  by (simp add: stripWww_def)

lemma length_stripTrailingSlash: "length (stripTrailingSlash d) \<le> length d"
  by (simp add: stripTrailingSlash_def)

lemma set_normalizeDomain: "set (normalizeDomain x) \<subseteq> set (toLowerCase (trim x))"
proof -
  have "set (normalizeDomain x) \<subseteq>
      set (stripTrailingSlash (stripWww (stripProtocol (toLowerCase (trim x)))))"
    by (auto simp add: normalizeDomain_def Let_def dest: set_takeWhileD)
  also have "\<dots> \<subseteq> set (stripWww (stripProtocol (toLowerCase (trim x))))"
    by (rule set_stripTrailingSlash)
  also have "\<dots> \<subseteq> set (stripProtocol (toLowerCase (trim x)))"
    by (rule set_stripWww)
  also have "\<dots> \<subseteq> set (toLowerCase (trim x))"
    by (rule set_stripProtocol)
  finally show ?thesis .
qed

lemma normalizeDomain_lowercase: "toLowerCase (normalizeDomain x) = normalizeDomain x"
proof (rule toLowerCase_fixed, rule ballI)
  fix c
  assume "c \<in> set (normalizeDomain x)"
  then have "c \<in> set (toLowerCase (trim x))"
    using set_normalizeDomain [of x] by blast
  then show "lowerChar c = c"
    by (rule toLowerCase_chars)
qed

lemma normalizeDomain_no_slash: "CHR ''/'' \<notin> set (normalizeDomain x)"
  by (auto simp add: normalizeDomain_def Let_def dest: set_takeWhileD)

lemma length_normalizeDomain: "length (normalizeDomain x) \<le> length (trim x)"
proof -
  have "length (normalizeDomain x) \<le>
      length (stripTrailingSlash (stripWww (stripProtocol (toLowerCase (trim x)))))"
    by (simp add: normalizeDomain_def Let_def length_takeWhile_le)
  also have "\<dots> \<le> length (stripWww (stripProtocol (toLowerCase (trim x))))"
    by (rule length_stripTrailingSlash)
  also have "\<dots> \<le> length (stripProtocol (toLowerCase (trim x)))"
    by (rule length_stripWww)
  also have "\<dots> \<le> length (toLowerCase (trim x))"
    by (rule length_stripProtocol)
  finally show ?thesis by (simp add: toLowerCase_def)
qed

lemma no_slash_no_protocol:
  "CHR ''/'' \<notin> set d \<Longrightarrow> \<not> startsWith d ''http://'' \<and> \<not> startsWith d ''https://''"
  using startsWith_set [of d "''http://''"] startsWith_set [of d "''https://''"] by auto

lemma normalizeDomain_fixed:
  assumes lower: "toLowerCase y = y" and slash: "CHR ''/'' \<notin> set y"
    and trimmed: "trim y = y" and www: "\<not> startsWith y ''www.''"
  shows "normalizeDomain y = y"
proof -
  have p: "stripProtocol y = y"
    using no_slash_no_protocol [OF slash] by (simp add: stripProtocol_def)
  have w: "stripWww y = y"
    using www by (simp add: stripWww_def)
  have "\<not> endsWith y ''/''"
    using endsWith_set [of y "''/''"] slash by auto
  then have t: "stripTrailingSlash y = y"
    by (simp add: stripTrailingSlash_def)
  have "takeWhile (\<lambda>c. c \<noteq> CHR ''/'') y = y"
    using slash by (auto simp add: takeWhile_eq_all_conv)
  then show ?thesis
    by (simp add: normalizeDomain_def Let_def trimmed lower p w t)
qed

lemma normalizeDomain_www_shorter:
  assumes lower: "toLowerCase y = y" and slash: "CHR ''/'' \<notin> set y"
    and trimmed: "trim y = y" and www: "startsWith y ''www.''"
  shows "length (normalizeDomain y) < length y"
proof -
  have p: "stripProtocol y = y"
    using no_slash_no_protocol [OF slash] by (simp add: stripProtocol_def)
  have w: "stripWww y = drop 4 y"
    using www by (simp add: stripWww_def)
  have len: "4 \<le> length y"
    using startsWith_length [OF www] by simp
  have "length (normalizeDomain y) \<le> length (stripTrailingSlash (drop 4 y))"
    by (simp add: normalizeDomain_def Let_def trimmed lower p w length_takeWhile_le)
  also have "\<dots> \<le> length (drop 4 y)" by (rule length_stripTrailingSlash)
  also have "\<dots> < length y" using len by simp
  finally show ?thesis .
qed

text \<open>
  Claim C2, amended. \<open>normalizeDomain\<close> is a total function of its argument alone (the
  empty string gives the empty string), but it is not idempotent: each pattern is removed once, so a second \<open>www.\<close> label, or white
  space laid bare by a removal, survives the first application and goes with the second.
  A second application changes nothing exactly when the result of the first neither
  begins or ends with white space nor begins with \<open>www.\<close>.
\<close>

theorem normalizeDomain_idempotent_iff:
  "normalizeDomain [] = [] \<and>
   (normalizeDomain (normalizeDomain x) = normalizeDomain x \<longleftrightarrow>
      trim (normalizeDomain x) = normalizeDomain x \<and>
      \<not> startsWith (normalizeDomain x) ''www.'')"
proof (rule conjI)
  show "normalizeDomain [] = []"
    by code_simp
next
  show "normalizeDomain (normalizeDomain x) = normalizeDomain x \<longleftrightarrow>
      trim (normalizeDomain x) = normalizeDomain x \<and>
      \<not> startsWith (normalizeDomain x) ''www.''"
  proof
    let ?y = "normalizeDomain x"
    assume fixed: "normalizeDomain ?y = ?y"
    have "length ?y = length (normalizeDomain ?y)" using fixed by simp
    also have "\<dots> \<le> length (trim ?y)" by (rule length_normalizeDomain)
    finally have "length (trim ?y) = length ?y"
      using length_trim [of ?y] by simp
    then have trimmed: "trim ?y = ?y" by (rule trim_same_length)
    have "\<not> startsWith ?y ''www.''"
    proof
      assume "startsWith ?y ''www.''"
      with normalizeDomain_lowercase normalizeDomain_no_slash trimmed
      have "length (normalizeDomain ?y) < length ?y"
        by (rule normalizeDomain_www_shorter)
      with fixed show False by simp
    qed
    with trimmed show "trim ?y = ?y \<and> \<not> startsWith ?y ''www.''" ..
  next
    let ?y = "normalizeDomain x"
    assume a: "trim ?y = ?y \<and> \<not> startsWith ?y ''www.''"
    from a have t: "trim ?y = ?y" and w: "\<not> startsWith ?y ''www.''" by simp_all
    from normalizeDomain_lowercase normalizeDomain_no_slash t w
    show "normalizeDomain ?y = ?y"
      by (rule normalizeDomain_fixed)
  qed
qed

theorem normalizeDomain_idempotent_iff_witness:
  "normalizeDomain (normalizeDomain ''  HTTPS://WWW.Example.com/path/page  '') =
     normalizeDomain ''  HTTPS://WWW.Example.com/path/page  ''"
proof -
  have n: "normalizeDomain ''  HTTPS://WWW.Example.com/path/page  '' = ''example.com''"
    by code_simp
  have t: "trim ''example.com'' = ''example.com''" by code_simp
  have w: "\<not> startsWith ''example.com'' ''www.''" by code_simp
  show ?thesis
    using normalizeDomain_idempotent_iff [of "''  HTTPS://WWW.Example.com/path/page  ''",
        THEN conjunct2]
    by (simp only: n t w simp_thms)
qed

text \<open>
  The input \<open>www.www.example.com\<close> normalizes to \<open>www.example.com\<close>, which normalizes to
  \<open>example.com\<close>.
\<close>

theorem normalizeDomain_not_idempotent:
  "normalizeDomain (normalizeDomain ''www.www.example.com'') \<noteq>
     normalizeDomain ''www.www.example.com''"
  by code_simp

section \<open>Validation\<close>

text \<open>The documented examples of \<open>isValidDomain\<close>, and the input \<open>not a domain\<close> of \<open>add\<close>.\<close>

lemma isValidDomain_examples:
  "isValidDomain ''example.com'' \<and> \<not> isValidDomain ''example'' \<and>
   isValidDomain ''sub.example.co.uk'' \<and> \<not> isValidDomain ''-bad.com'' \<and>
   \<not> isValidDomain [] \<and> \<not> isValidDomain (normalizeDomain ''not a domain'')"
  by code_simp

section \<open>The store operations\<close>

lemma error_distinct: "InvalidFormat \<noteq> DuplicateEntry"
  by (simp add: InvalidFormat_def DuplicateEntry_def)

lemma add_invalid:
  "normalizeDomain x = [] \<or> \<not> isValidDomain (normalizeDomain x) \<Longrightarrow>
   add x stored = (Inl InvalidFormat, stored)"
  by (simp add: add_def Let_def)

lemma add_duplicate:
  "normalizeDomain x \<noteq> [] \<Longrightarrow> isValidDomain (normalizeDomain x) \<Longrightarrow>
   \<exists>d \<in> set stored. domain d = normalizeDomain x \<Longrightarrow>
   add x stored = (Inl DuplicateEntry, stored)"
  by (auto simp add: add_def Let_def storage_set_def list_ex_iff)

lemma add_fresh:
  "normalizeDomain x \<noteq> [] \<Longrightarrow> isValidDomain (normalizeDomain x) \<Longrightarrow>
   \<forall>d \<in> set stored. domain d \<noteq> normalizeDomain x \<Longrightarrow>
   add x stored = (Inr (), stored @ [\<lparr>domain = normalizeDomain x, enabled = True\<rparr>])"
  by (auto simp add: add_def Let_def storage_set_def list_ex_iff)

lemma remove_eq: "remove x stored = (Inr (), filter (\<lambda>d. domain d \<noteq> x) stored)"
  by (simp add: remove_def storage_set_def)

lemma toggle_eq:
  "toggle x stored =
     (Inr (), map (\<lambda>d. if domain d = x then d\<lparr>enabled := \<not> enabled d\<rparr> else d) stored)"
  by (simp add: toggle_def storage_set_def)

text \<open>
  Claim C4. \<open>add\<close> fails with \<open>InvalidFormat\<close> exactly when the normalized input is empty or
  fails \<open>isValidDomain\<close>; otherwise it fails with \<open>DuplicateEntry\<close> exactly when some entry
  has the normalized domain, whatever that entry's \<open>enabled\<close> flag; otherwise it appends
  the entry with the normalized domain and \<open>enabled = true\<close> at the end. A failure leaves the
  collection as it was, and there is no other failure.
\<close>

theorem add_outcomes:
  "(fst (add x stored) = Inl InvalidFormat \<longleftrightarrow>
      normalizeDomain x = [] \<or> \<not> isValidDomain (normalizeDomain x)) \<and>
   (fst (add x stored) = Inl DuplicateEntry \<longleftrightarrow>
      \<not> (normalizeDomain x = [] \<or> \<not> isValidDomain (normalizeDomain x)) \<and>
      (\<exists>d \<in> set stored. domain d = normalizeDomain x)) \<and>
   (\<not> (normalizeDomain x = [] \<or> \<not> isValidDomain (normalizeDomain x)) \<and>
    \<not> (\<exists>d \<in> set stored. domain d = normalizeDomain x) \<longrightarrow>
      add x stored = (Inr (), stored @ [\<lparr>domain = normalizeDomain x, enabled = True\<rparr>])) \<and>
   (\<forall>e. fst (add x stored) = Inl e \<longrightarrow>
      snd (add x stored) = stored \<and> (e = InvalidFormat \<or> e = DuplicateEntry))"
proof (cases "normalizeDomain x = [] \<or> \<not> isValidDomain (normalizeDomain x)")
  case True
  then show ?thesis
    using add_invalid [OF True, of stored] error_distinct by auto
next
  case valid: False
  show ?thesis
  proof (cases "\<exists>d \<in> set stored. domain d = normalizeDomain x")
    case True
    with valid have "add x stored = (Inl DuplicateEntry, stored)"
      by (simp add: add_duplicate)
    with valid True show ?thesis
      using error_distinct by auto
  next
    case False
    with valid have "add x stored =
        (Inr (), stored @ [\<lparr>domain = normalizeDomain x, enabled = True\<rparr>])"
      by (simp add: add_fresh)
    with valid False show ?thesis
      by auto
  qed
qed

theorem add_outcomes_witness:
  "fst (add ''Example.com'' [\<lparr>domain = ''example.com'', enabled = False\<rparr>]) = Inl DuplicateEntry \<and>
   snd (add ''Example.com'' [\<lparr>domain = ''example.com'', enabled = False\<rparr>]) =
     [\<lparr>domain = ''example.com'', enabled = False\<rparr>] \<and>
   fst (add ''not a domain'' []) = Inl InvalidFormat \<and>
   add ''https://www.example.org/page'' [\<lparr>domain = ''example.com'', enabled = False\<rparr>] =
     (Inr (), [\<lparr>domain = ''example.com'', enabled = False\<rparr>,
               \<lparr>domain = ''example.org'', enabled = True\<rparr>])"
proof -
  have n1: "normalizeDomain ''Example.com'' = ''example.com''" by code_simp
  have v1: "isValidDomain ''example.com''" by code_simp
  have n2: "normalizeDomain ''not a domain'' = ''not a domain''" by code_simp
  have v2: "\<not> isValidDomain ''not a domain''" by code_simp
  have n3: "normalizeDomain ''https://www.example.org/page'' = ''example.org''" by code_simp
  have v3: "isValidDomain ''example.org''" by code_simp
  show ?thesis
    using add_outcomes [of "''Example.com''" "[\<lparr>domain = ''example.com'', enabled = False\<rparr>]"]
      add_outcomes [of "''not a domain''" "[]"]
      add_outcomes [of "''https://www.example.org/page''"
        "[\<lparr>domain = ''example.com'', enabled = False\<rparr>]"]
    by (simp add: n1 v1 n2 v2 n3 v3)
qed

text \<open>
  Claim C9. Two applications of \<open>toggle\<close> with the same argument give the collection back:
  the flags flipped by the first are flipped again by the second, the domains and the
  other entries are never touched, and with no entry of that domain one application
  already changes nothing.
\<close>

theorem toggle_twice:
  "snd (toggle x (snd (toggle x stored))) = stored \<and>
   fst (toggle x stored) = Inr () \<and>
   map domain (snd (toggle x stored)) = map domain stored \<and>
   (x \<notin> domain ` set stored \<longrightarrow> snd (toggle x stored) = stored)"
proof -
  have twice: "snd (toggle x (snd (toggle x stored))) = stored"
    by (induction stored) (simp_all add: toggle_eq)
  have absent: "x \<notin> domain ` set stored \<longrightarrow> snd (toggle x stored) = stored"
    by (induction stored) (simp_all add: toggle_eq)
  have doms: "map domain (snd (toggle x stored)) = map domain stored"
    by (induction stored) (simp_all add: toggle_eq)
  show ?thesis
    using twice absent doms by (simp add: toggle_eq)
qed

theorem toggle_twice_witness:
  "snd (toggle ''a.com'' (snd (toggle ''a.com''
      [\<lparr>domain = ''a.com'', enabled = True\<rparr>, \<lparr>domain = ''b.com'', enabled = False\<rparr>]))) =
     [\<lparr>domain = ''a.com'', enabled = True\<rparr>, \<lparr>domain = ''b.com'', enabled = False\<rparr>] \<and>
   snd (toggle ''a.com'' [\<lparr>domain = ''a.com'', enabled = True\<rparr>]) =
     [\<lparr>domain = ''a.com'', enabled = False\<rparr>] \<and>
   snd (toggle ''c.com'' [\<lparr>domain = ''a.com'', enabled = True\<rparr>]) =
     [\<lparr>domain = ''a.com'', enabled = True\<rparr>]"
proof -
  have flip: "snd (toggle ''a.com'' [\<lparr>domain = ''a.com'', enabled = True\<rparr>]) =
      [\<lparr>domain = ''a.com'', enabled = False\<rparr>]"
    by (simp add: toggle_eq)
  have absent: "''c.com'' \<notin> domain ` set [\<lparr>domain = ''a.com'', enabled = True\<rparr>]"
    by simp
  show ?thesis
    using toggle_twice [of "''a.com''"
        "[\<lparr>domain = ''a.com'', enabled = True\<rparr>, \<lparr>domain = ''b.com'', enabled = False\<rparr>]"]
      toggle_twice [of "''c.com''" "[\<lparr>domain = ''a.com'', enabled = True\<rparr>]"]
      flip absent
    by blast
qed

text \<open>
  Claim C7. When the normalized input is not empty, passes \<open>isValidDomain\<close> and is the domain
  of no entry, \<open>add\<close> succeeds and \<open>isBlocked\<close> of the same input is true afterwards.
\<close>

theorem add_then_isBlocked:
  "normalizeDomain x \<noteq> [] \<Longrightarrow> isValidDomain (normalizeDomain x) \<Longrightarrow>
   \<forall>d \<in> set stored. domain d \<noteq> normalizeDomain x \<Longrightarrow>
   fst (add x stored) = Inr () \<and> isBlocked x (snd (add x stored)) = True"
proof -
  assume ne: "normalizeDomain x \<noteq> []" and valid: "isValidDomain (normalizeDomain x)"
    and fresh: "\<forall>d \<in> set stored. domain d \<noteq> normalizeDomain x"
  have found: "find (\<lambda>d. domain d = n) (stored @ [\<lparr>domain = n, enabled = True\<rparr>]) =
      Some \<lparr>domain = n, enabled = True\<rparr>" if "\<forall>d \<in> set stored. domain d \<noteq> n" for n
    using that by (induction stored) simp_all
  show ?thesis
    using add_fresh [OF ne valid fresh] found [OF fresh]
    by (simp add: isBlocked_def)
qed

theorem add_then_isBlocked_witness:
  "fst (add '' https://WWW.Example.com/news '' [\<lparr>domain = ''other.org'', enabled = False\<rparr>]) =
     Inr () \<and>
   isBlocked '' https://WWW.Example.com/news ''
     (snd (add '' https://WWW.Example.com/news '' [\<lparr>domain = ''other.org'', enabled = False\<rparr>])) =
     True"
proof -
  have n: "normalizeDomain '' https://WWW.Example.com/news '' = ''example.com''" by code_simp
  have ne: "normalizeDomain '' https://WWW.Example.com/news '' \<noteq> []" by (simp add: n)
  have v: "isValidDomain (normalizeDomain '' https://WWW.Example.com/news '')"
    unfolding n by code_simp
  have fresh: "\<forall>d \<in> set [\<lparr>domain = ''other.org'', enabled = False\<rparr>].
      domain d \<noteq> normalizeDomain '' https://WWW.Example.com/news ''"
    by (simp add: n)
  show ?thesis
    by (rule add_then_isBlocked [OF ne v fresh])
qed

section \<open>Sequences of store operations\<close>

lemma add_cases:
  "snd (add x stored) = stored \<or>
   snd (add x stored) = stored @ [\<lparr>domain = normalizeDomain x, enabled = True\<rparr>] \<and>
     (\<forall>d \<in> set stored. domain d \<noteq> normalizeDomain x)"
proof (cases "normalizeDomain x = [] \<or> \<not> isValidDomain (normalizeDomain x)")
  case True
  then show ?thesis by (simp add: add_invalid)
next
  case valid: False
  show ?thesis
  proof (cases "\<exists>d \<in> set stored. domain d = normalizeDomain x")
    case True
    with valid show ?thesis by (simp add: add_duplicate)
  next
    case False
    with valid show ?thesis by (simp add: add_fresh)
  qed
qed

lemma toggle_domains: "map domain (snd (toggle x stored)) = map domain stored"
  by (induction stored) (simp_all add: toggle_eq)

lemma apply_operation_domains:
  assumes new: "\<And>x. P (normalizeDomain x)" and old: "\<forall>n \<in> set (map domain stored). P n"
  shows "\<forall>n \<in> set (map domain (apply_operation operation stored)). P n"
proof (cases operation)
  case (Add x)
  from add_cases [of x stored] show ?thesis
  proof
    assume "snd (add x stored) = stored"
    with old show ?thesis by (simp add: Add)
  next
    assume "snd (add x stored) = stored @ [\<lparr>domain = normalizeDomain x, enabled = True\<rparr>] \<and>
      (\<forall>d \<in> set stored. domain d \<noteq> normalizeDomain x)"
    then have "map domain (apply_operation operation stored) =
        map domain stored @ [normalizeDomain x]"
      by (simp add: Add)
    with old new [of x] show ?thesis by simp
  qed
next
  case (Remove x)
  with old show ?thesis by (simp add: remove_eq)
next
  case (Toggle x)
  with old show ?thesis by (simp only: apply_operation.simps toggle_domains)
qed

lemma run_domains:
  assumes new: "\<And>x. P (normalizeDomain x)"
  shows "\<forall>n \<in> set (map domain stored). P n \<Longrightarrow>
    \<forall>n \<in> set (map domain (run operations stored)). P n"
proof (induction operations arbitrary: stored)
  case Nil
  then show ?case by simp
next
  case (Cons operation rest)
  have "\<forall>n \<in> set (map domain (apply_operation operation stored)). P n"
    using new Cons.prems by (rule apply_operation_domains [of P])
  then have "\<forall>n \<in> set (map domain (run rest (apply_operation operation stored))). P n"
    by (rule Cons.IH)
  then show ?case
    by (simp only: run.simps)
qed

text \<open>
  Claim C3, amended. \<open>add\<close> stores the result of \<open>normalizeDomain\<close>, and \<open>remove\<close> and
  \<open>toggle\<close> never change a domain. So from a collection whose domains are lowercase and
  contain no slash (the empty collection is one), after any sequence of \<open>add\<close>, \<open>remove\<close> and
  \<open>toggle\<close> every domain is lowercase, has no scheme, no path and no trailing slash.
  Nothing is promised about a \<open>www.\<close> prefix, and nothing about collections loaded by
  \<open>deserialize\<close>, which keeps the persisted domains as they are.
\<close>

theorem run_keeps_domains_normalized:
  assumes "\<forall>d \<in> set stored. toLowerCase (domain d) = domain d \<and> CHR ''/'' \<notin> set (domain d)"
  shows "\<forall>d \<in> set (run operations stored).
           toLowerCase (domain d) = domain d \<and>
           \<not> startsWith (domain d) ''http://'' \<and> \<not> startsWith (domain d) ''https://'' \<and>
           CHR ''/'' \<notin> set (domain d)"
proof -
  let ?P = "\<lambda>s. toLowerCase s = s \<and> CHR ''/'' \<notin> set s"
  have "?P (normalizeDomain x)" for x
    by (simp add: normalizeDomain_lowercase normalizeDomain_no_slash)
  then have "\<forall>n \<in> set (map domain (run operations stored)). ?P n"
    using assms by (intro run_domains) simp_all
  then show ?thesis
    using no_slash_no_protocol by simp
qed

theorem run_keeps_domains_normalized_witness:
  "run [Add ''HTTP://WWW.Example.com/a/'', Toggle ''example.com'', Remove ''Example.com''] [] =
     [\<lparr>domain = ''example.com'', enabled = False\<rparr>] \<and>
   toLowerCase ''example.com'' = ''example.com'' \<and>
   \<not> startsWith ''example.com'' ''http://'' \<and> \<not> startsWith ''example.com'' ''https://'' \<and>
   CHR ''/'' \<notin> set ''example.com''"
proof -
  have r: "run [Add ''HTTP://WWW.Example.com/a/'', Toggle ''example.com'', Remove ''Example.com'']
      [] = [\<lparr>domain = ''example.com'', enabled = False\<rparr>]"
    by code_simp
  have start: "\<forall>d \<in> set ([] :: BlockedDomain list).
      toLowerCase (domain d) = domain d \<and> CHR ''/'' \<notin> set (domain d)"
    by simp
  have "\<forall>d \<in> set [\<lparr>domain = ''example.com'', enabled = False\<rparr>].
      toLowerCase (domain d) = domain d \<and>
      \<not> startsWith (domain d) ''http://'' \<and> \<not> startsWith (domain d) ''https://'' \<and>
      CHR ''/'' \<notin> set (domain d)"
    using run_keeps_domains_normalized [OF start,
        of "[Add ''HTTP://WWW.Example.com/a/'', Toggle ''example.com'', Remove ''Example.com'']"]
    by (simp only: r)
  with r show ?thesis
    by simp
qed

text \<open>
  A reachable collection holds a domain that is not canonical: from the empty collection
  that \<open>deserialize\<close> gives for a missing value, \<open>add('www.www.example.com')\<close> stores
  \<open>www.example.com\<close>; and the persisted legacy list \<open>["Example.COM/"]\<close> is loaded as it is,
  with its capitals and its trailing slash.
\<close>

theorem stored_domain_not_canonical:
  \<open>asBlockedDomains (deserialize Map.empty Undefined) = Some [] \<and>
   run [Add ''www.www.example.com''] [] = [\<lparr>domain = ''www.example.com'', enabled = True\<rparr>] \<and>
   startsWith ''www.example.com'' ''www.'' \<and>
   asBlockedDomains
     (deserialize [''["Example.COM/"]'' \<mapsto> JArray [JString ''Example.COM/'']]
        (Other ''["Example.COM/"]'')) =
     Some [\<lparr>domain = ''Example.COM/'', enabled = True\<rparr>] \<and>
   toLowerCase ''Example.COM/'' \<noteq> ''Example.COM/'' \<and> endsWith ''Example.COM/'' ''/''\<close>
  by code_simp

lemma apply_operation_distinct:
  assumes "distinct (map domain stored)"
  shows "distinct (map domain (apply_operation operation stored))"
proof (cases operation)
  case (Add x)
  from add_cases [of x stored] show ?thesis
  proof
    assume "snd (add x stored) = stored"
    with assms show ?thesis by (simp add: Add)
  next
    assume fresh: "snd (add x stored) =
        stored @ [\<lparr>domain = normalizeDomain x, enabled = True\<rparr>] \<and>
      (\<forall>d \<in> set stored. domain d \<noteq> normalizeDomain x)"
    then have "normalizeDomain x \<notin> set (map domain stored)"
      by auto
    with fresh assms show ?thesis by (simp add: Add)
  qed
next
  case (Remove x)
  with assms show ?thesis by (simp add: remove_eq distinct_map_filter)
next
  case (Toggle x)
  with assms show ?thesis by (simp add: toggle_domains)
qed

text \<open>
  Claim C6, amended. \<open>add\<close> refuses a domain that is present, \<open>remove\<close> only drops entries and
  \<open>toggle\<close> changes no domain. So from a collection with at most one entry per domain (the
  empty collection is one), any sequence of \<open>add\<close>, \<open>remove\<close> and \<open>toggle\<close> gives a collection
  with at most one entry per domain. Nothing is promised about collections loaded by
  \<open>deserialize\<close>, which does not look for repeated domains.
\<close>

theorem run_keeps_domains_distinct:
  "distinct (map domain stored) \<Longrightarrow> distinct (map domain (run operations stored))"
proof (induction operations arbitrary: stored)
  case Nil
  then show ?case by simp
next
  case (Cons operation rest)
  from Cons.prems have "distinct (map domain (apply_operation operation stored))"
    by (rule apply_operation_distinct)
  then show ?case
    by (simp add: Cons.IH)
qed

theorem run_keeps_domains_distinct_witness:
  "distinct (map domain ([] :: BlockedDomain list)) \<and>
   run [Add ''a.com'', Add ''b.com'', Add ''A.com'', Toggle ''a.com''] [] =
     [\<lparr>domain = ''a.com'', enabled = False\<rparr>, \<lparr>domain = ''b.com'', enabled = True\<rparr>] \<and>
   distinct (map domain (run [Add ''a.com'', Add ''b.com'', Add ''A.com'', Toggle ''a.com''] []))"
proof -
  have start: "distinct (map domain ([] :: BlockedDomain list))" by simp
  have r: "run [Add ''a.com'', Add ''b.com'', Add ''A.com'', Toggle ''a.com''] [] =
      [\<lparr>domain = ''a.com'', enabled = False\<rparr>, \<lparr>domain = ''b.com'', enabled = True\<rparr>]"
    by code_simp
  from run_keeps_domains_distinct [OF start] start r show ?thesis
    by blast
qed

text \<open>
  The persisted legacy list \<open>["a.com","a.com"]\<close> is loaded as two entries with the same
  domain.
\<close>

theorem deserialized_domains_repeat:
  \<open>asBlockedDomains
     (deserialize [''["a.com","a.com"]'' \<mapsto> JArray [JString ''a.com'', JString ''a.com'']]
        (Other ''["a.com","a.com"]'')) =
     Some [\<lparr>domain = ''a.com'', enabled = True\<rparr>, \<lparr>domain = ''a.com'', enabled = True\<rparr>] \<and>
   \<not> distinct (map domain
     [\<lparr>domain = ''a.com'', enabled = True\<rparr>, \<lparr>domain = ''a.com'', enabled = True\<rparr>])\<close>
  by code_simp

section \<open>Arguments of remove and toggle\<close>

text \<open>
  Claim C10, amended. \<open>remove\<close> and \<open>toggle\<close> compare their argument with the stored domains
  as it is, without normalizing it: \<open>remove\<close> drops exactly the entries whose domain is the
  argument, \<open>toggle\<close> flips exactly those. With an argument that is the domain of no entry,
  as a non-canonical form of \<open>example.com\<close> is in a collection that does not hold that very
  string, both leave the collection unchanged. \<open>add\<close> and \<open>isBlocked\<close> normalize: two
  arguments with the same normalized form get the same answer.
\<close>

theorem remove_toggle_verbatim:
  "snd (remove x stored) = filter (\<lambda>d. domain d \<noteq> x) stored \<and>
   snd (toggle x stored) =
     map (\<lambda>d. if domain d = x then d\<lparr>enabled := \<not> enabled d\<rparr> else d) stored \<and>
   (x \<notin> domain ` set stored \<longrightarrow>
      snd (remove x stored) = stored \<and> snd (toggle x stored) = stored) \<and>
   (normalizeDomain x = normalizeDomain y \<longrightarrow>
      add x stored = add y stored \<and> isBlocked x stored = isBlocked y stored)"
proof -
  have "x \<notin> domain ` set stored \<longrightarrow> filter (\<lambda>d. domain d \<noteq> x) stored = stored"
    by (induction stored) simp_all
  moreover have "x \<notin> domain ` set stored \<longrightarrow>
      map (\<lambda>d. if domain d = x then d\<lparr>enabled := \<not> enabled d\<rparr> else d) stored = stored"
    by (induction stored) simp_all
  moreover have "normalizeDomain x = normalizeDomain y \<longrightarrow>
      add x stored = add y stored \<and> isBlocked x stored = isBlocked y stored"
    by (simp add: add_def isBlocked_def)
  ultimately show ?thesis
    by (simp add: remove_eq toggle_eq)
qed

theorem remove_toggle_verbatim_witness:
  "snd (remove ''Example.com'' [\<lparr>domain = ''example.com'', enabled = True\<rparr>]) =
     [\<lparr>domain = ''example.com'', enabled = True\<rparr>] \<and>
   snd (toggle ''Example.com'' [\<lparr>domain = ''example.com'', enabled = True\<rparr>]) =
     [\<lparr>domain = ''example.com'', enabled = True\<rparr>] \<and>
   snd (remove ''https://example.com/'' [\<lparr>domain = ''example.com'', enabled = True\<rparr>]) =
     [\<lparr>domain = ''example.com'', enabled = True\<rparr>] \<and>
   snd (toggle ''https://example.com/'' [\<lparr>domain = ''example.com'', enabled = True\<rparr>]) =
     [\<lparr>domain = ''example.com'', enabled = True\<rparr>] \<and>
   snd (remove ''www.example.com'' [\<lparr>domain = ''example.com'', enabled = True\<rparr>]) =
     [\<lparr>domain = ''example.com'', enabled = True\<rparr>] \<and>
   snd (toggle ''www.example.com'' [\<lparr>domain = ''example.com'', enabled = True\<rparr>]) =
     [\<lparr>domain = ''example.com'', enabled = True\<rparr>] \<and>
   isBlocked ''https://example.com/'' [\<lparr>domain = ''example.com'', enabled = True\<rparr>] = True \<and>
   fst (add ''https://example.com/'' [\<lparr>domain = ''example.com'', enabled = True\<rparr>]) =
     Inl DuplicateEntry"
proof -
  have same: "normalizeDomain ''https://example.com/'' = normalizeDomain ''example.com''"
    by code_simp
  have blocked: "isBlocked ''example.com'' [\<lparr>domain = ''example.com'', enabled = True\<rparr>] = True"
    by code_simp
  have duplicate: "fst (add ''example.com'' [\<lparr>domain = ''example.com'', enabled = True\<rparr>]) =
      Inl DuplicateEntry"
    by code_simp
  have a: "''Example.com'' \<notin> domain ` set [\<lparr>domain = ''example.com'', enabled = True\<rparr>]"
    by simp
  have b: "''https://example.com/'' \<notin> domain ` set [\<lparr>domain = ''example.com'', enabled = True\<rparr>]"
    by simp
  have c: "''www.example.com'' \<notin> domain ` set [\<lparr>domain = ''example.com'', enabled = True\<rparr>]"
    by simp
  show ?thesis
    using remove_toggle_verbatim [of "''Example.com''"
        "[\<lparr>domain = ''example.com'', enabled = True\<rparr>]" "''example.com''"]
      remove_toggle_verbatim [of "''https://example.com/''"
        "[\<lparr>domain = ''example.com'', enabled = True\<rparr>]" "''example.com''"]
      remove_toggle_verbatim [of "''www.example.com''"
        "[\<lparr>domain = ''example.com'', enabled = True\<rparr>]" "''example.com''"]
      a b c same blocked duplicate
    by metis
qed

text \<open>
  A collection can hold \<open>example.com\<close> and \<open>www.example.com\<close> at once (\<open>add\<close> of
  \<open>example.com\<close> and of \<open>www.www.example.com\<close> to the empty collection); \<open>remove\<close> and
  \<open>toggle\<close> of \<open>www.example.com\<close> then change it.
\<close>

theorem remove_toggle_change_collection:
  "run [Add ''example.com'', Add ''www.www.example.com''] [] =
     [\<lparr>domain = ''example.com'', enabled = True\<rparr>, \<lparr>domain = ''www.example.com'', enabled = True\<rparr>] \<and>
   snd (remove ''www.example.com''
     [\<lparr>domain = ''example.com'', enabled = True\<rparr>, \<lparr>domain = ''www.example.com'', enabled = True\<rparr>]) =
     [\<lparr>domain = ''example.com'', enabled = True\<rparr>] \<and>
   snd (toggle ''www.example.com''
     [\<lparr>domain = ''example.com'', enabled = True\<rparr>, \<lparr>domain = ''www.example.com'', enabled = True\<rparr>]) =
     [\<lparr>domain = ''example.com'', enabled = True\<rparr>, \<lparr>domain = ''www.example.com'', enabled = False\<rparr>]"
  by code_simp

section \<open>Deserialization\<close>

lemma trim_whitespace: "\<forall>c \<in> set s. isWhiteSpace c \<Longrightarrow> trim s = []"
proof -
  assume "\<forall>c \<in> set s. isWhiteSpace c"
  then have blank: "dropWhile isWhiteSpace s = []"
    by simp
  show ?thesis
    unfolding trim_def blank by simp
qed

lemma typeof_string: "typeof v = ''string'' \<longleftrightarrow> (\<exists>s. v = Some (JString s))"
  by (cases v rule: typeof.cases) simp_all

lemma typeof_boolean: "typeof v = ''boolean'' \<longleftrightarrow> (\<exists>b. v = Some (JBool b))"
  by (cases v rule: typeof.cases) simp_all

lemma isBlockedDomain_iff:
  "isBlockedDomain item \<longleftrightarrow>
     (\<exists>kvs d b. item = JObject kvs \<and> map_of kvs ''domain'' = Some (JString d) \<and>
        map_of kvs ''enabled'' = Some (JBool b))"
  by (cases item) (simp_all add: isBlockedDomain_def typeof_string typeof_boolean)

lemma deserialize_array:
  assumes "textStr \<noteq> ''undefined''" and "textStr \<noteq> ''null''" and "trim textStr \<noteq> []"
    and "JSON_parse textStr = Some (JArray parsed)"
  shows "deserialize JSON_parse (Other textStr) =
    (if length parsed > 0 \<and> typeof (Some (hd parsed)) = ''string''
     then map (\<lambda>d. JObject [(''domain'', d), (''enabled'', JBool True)]) parsed
     else filter isBlockedDomain parsed)"
  using assms by (simp add: deserialize_def)

text \<open>
  Claim C5. \<open>deserialize\<close> returns a collection on every input, the exception of
  \<open>JSON.parse\<close> being caught. A missing or \<open>null\<close> value, the texts \<open>undefined\<close> and \<open>null\<close>, a
  text of white space only, a text that does not parse and a parsed value that is not an
  array all give the empty collection. A parsed array whose first element is a string is
  migrated: every element \<open>s\<close> becomes \<open>{domain: s, enabled: true}\<close>. Every other parsed array
  is filtered: the elements kept are the objects with a string \<open>domain\<close> and a boolean
  \<open>enabled\<close>.
\<close>

theorem deserialize_cases:
  "deserialize JSON_parse Undefined = [] \<and>
   deserialize JSON_parse Null = [] \<and>
   deserialize JSON_parse (Other ''undefined'') = [] \<and>
   deserialize JSON_parse (Other ''null'') = [] \<and>
   ((\<forall>c \<in> set textStr. isWhiteSpace c) \<longrightarrow> deserialize JSON_parse (Other textStr) = []) \<and>
   (JSON_parse textStr = None \<longrightarrow> deserialize JSON_parse (Other textStr) = []) \<and>
   (\<forall>parsed. JSON_parse textStr = Some parsed \<and> (\<forall>items. parsed \<noteq> JArray items) \<longrightarrow>
      deserialize JSON_parse (Other textStr) = []) \<and>
   (\<forall>s rest. textStr \<noteq> ''undefined'' \<and> textStr \<noteq> ''null'' \<and> trim textStr \<noteq> [] \<and>
      JSON_parse textStr = Some (JArray (JString s # rest)) \<longrightarrow>
      deserialize JSON_parse (Other textStr) =
        map (\<lambda>d. JObject [(''domain'', d), (''enabled'', JBool True)]) (JString s # rest)) \<and>
   (\<forall>items. textStr \<noteq> ''undefined'' \<and> textStr \<noteq> ''null'' \<and> trim textStr \<noteq> [] \<and>
      JSON_parse textStr = Some (JArray items) \<and> (\<forall>s rest. items \<noteq> JString s # rest) \<longrightarrow>
      deserialize JSON_parse (Other textStr) =
        filter (\<lambda>item. \<exists>kvs d b. item = JObject kvs \<and>
                  map_of kvs ''domain'' = Some (JString d) \<and>
                  map_of kvs ''enabled'' = Some (JBool b)) items)"
proof (intro conjI allI impI)
  show "deserialize JSON_parse Undefined = []"
    by (simp add: deserialize_def)
  show "deserialize JSON_parse Null = []"
    by (simp add: deserialize_def)
  show "deserialize JSON_parse (Other ''undefined'') = []"
    by (simp add: deserialize_def)
  show "deserialize JSON_parse (Other ''null'') = []"
    by (simp add: deserialize_def)
  show "deserialize JSON_parse (Other textStr) = []" if "\<forall>c \<in> set textStr. isWhiteSpace c"
    using trim_whitespace [OF that] by (simp add: deserialize_def)
  show "deserialize JSON_parse (Other textStr) = []" if "JSON_parse textStr = None"
    using that by (simp add: deserialize_def)
  show "deserialize JSON_parse (Other textStr) = []"
    if "JSON_parse textStr = Some parsed \<and> (\<forall>items. parsed \<noteq> JArray items)" for parsed
    using that by (cases parsed) (simp_all add: deserialize_def)
  show "deserialize JSON_parse (Other textStr) =
      map (\<lambda>d. JObject [(''domain'', d), (''enabled'', JBool True)]) (JString s # rest)"
    if "textStr \<noteq> ''undefined'' \<and> textStr \<noteq> ''null'' \<and> trim textStr \<noteq> [] \<and>
      JSON_parse textStr = Some (JArray (JString s # rest))" for s rest
    using that by (simp add: deserialize_array)
  show "deserialize JSON_parse (Other textStr) =
      filter (\<lambda>item. \<exists>kvs d b. item = JObject kvs \<and>
                map_of kvs ''domain'' = Some (JString d) \<and>
                map_of kvs ''enabled'' = Some (JBool b)) items"
    if h: "textStr \<noteq> ''undefined'' \<and> textStr \<noteq> ''null'' \<and> trim textStr \<noteq> [] \<and>
      JSON_parse textStr = Some (JArray items) \<and> (\<forall>s rest. items \<noteq> JString s # rest)"
    for items
  proof -
    from h have legacy: "(length items > 0 \<and> typeof (Some (hd items)) = ''string'') = False"
      by (cases items) (auto simp add: typeof_string)
    from h have "textStr \<noteq> ''undefined''" and "textStr \<noteq> ''null''"
      and "trim textStr \<noteq> []" and "JSON_parse textStr = Some (JArray items)"
      by simp_all
    then have "deserialize JSON_parse (Other textStr) =
        (if length items > 0 \<and> typeof (Some (hd items)) = ''string''
         then map (\<lambda>d. JObject [(''domain'', d), (''enabled'', JBool True)]) items
         else filter isBlockedDomain items)"
      by (rule deserialize_array)
    then have "deserialize JSON_parse (Other textStr) = filter isBlockedDomain items"
      by (simp only: legacy if_False)
    also have "isBlockedDomain = (\<lambda>item. \<exists>kvs d b. item = JObject kvs \<and>
        map_of kvs ''domain'' = Some (JString d) \<and> map_of kvs ''enabled'' = Some (JBool b))"
      by (rule ext) (rule isBlockedDomain_iff)
    finally show ?thesis .
  qed
qed

theorem deserialize_cases_witness:
  \<open>deserialize [''["a.com","b.com"]'' \<mapsto> JArray [JString ''a.com'', JString ''b.com'']]
     (Other ''["a.com","b.com"]'') =
     [JObject [(''domain'', JString ''a.com''), (''enabled'', JBool True)],
      JObject [(''domain'', JString ''b.com''), (''enabled'', JBool True)]] \<and>
   deserialize Map.empty (Other ''not json'') = [] \<and>
   deserialize [''{"domain":"a.com","enabled":true}'' \<mapsto>
       JObject [(''domain'', JString ''a.com''), (''enabled'', JBool True)]]
     (Other ''{"domain":"a.com","enabled":true}'') = [] \<and>
   deserialize Map.empty (Other [CHR '' '', CHR 0x09, CHR 0x0A]) = [] \<and>
   deserialize
     [''[{"domain":"a.com","enabled":false},{"domain":7,"enabled":true},"b.com",null]'' \<mapsto>
        JArray [JObject [(''domain'', JString ''a.com''), (''enabled'', JBool False)],
                JObject [(''domain'', JNumber 7), (''enabled'', JBool True)],
                JString ''b.com'', JNull]]
     (Other ''[{"domain":"a.com","enabled":false},{"domain":7,"enabled":true},"b.com",null]'') =
     [JObject [(''domain'', JString ''a.com''), (''enabled'', JBool False)]]\<close>
proof -
  let ?legacy = \<open>''["a.com","b.com"]''\<close>
  let ?P1 = "[?legacy \<mapsto> JArray [JString ''a.com'', JString ''b.com'']]"
  let ?object = \<open>''{"domain":"a.com","enabled":true}''\<close>
  let ?P2 = "[?object \<mapsto> JObject [(''domain'', JString ''a.com''), (''enabled'', JBool True)]]"
  let ?mixed =
    \<open>''[{"domain":"a.com","enabled":false},{"domain":7,"enabled":true},"b.com",null]''\<close>
  let ?items = "[JObject [(''domain'', JString ''a.com''), (''enabled'', JBool False)],
                JObject [(''domain'', JNumber 7), (''enabled'', JBool True)],
                JString ''b.com'', JNull]"
  let ?P3 = "[?mixed \<mapsto> JArray ?items]"
  have t1: "trim ?legacy \<noteq> []" by code_simp
  have t3: "trim ?mixed \<noteq> []" by code_simp
  have blank: "\<forall>c \<in> set [CHR '' '', CHR 0x09, CHR 0x0A]. isWhiteSpace c"
    by (simp add: isWhiteSpace_def)
  have first: "deserialize ?P1 (Other ?legacy) =
      map (\<lambda>d. JObject [(''domain'', d), (''enabled'', JBool True)])
        [JString ''a.com'', JString ''b.com'']"
    using deserialize_cases [of ?P1 ?legacy] t1 by simp
  have second: "deserialize Map.empty (Other ''not json'') = []"
    using deserialize_cases [of Map.empty "''not json''"] by simp
  have third: "deserialize ?P2 (Other ?object) = []"
    using deserialize_cases [of ?P2 ?object] by simp
  have fourth: "deserialize Map.empty (Other [CHR '' '', CHR 0x09, CHR 0x0A]) = []"
    using deserialize_cases [of Map.empty "[CHR '' '', CHR 0x09, CHR 0x0A]"] blank by blast
  have fifth: "deserialize ?P3 (Other ?mixed) =
      filter (\<lambda>item. \<exists>kvs d b. item = JObject kvs \<and>
                map_of kvs ''domain'' = Some (JString d) \<and>
                map_of kvs ''enabled'' = Some (JBool b)) ?items"
    using deserialize_cases [of ?P3 ?mixed] t3 by simp
  show ?thesis
    unfolding first second third fourth fifth by auto
qed

section \<open>The navigation guard\<close>

lemma getURL_startsWith: "startsWith (getURL extensionId path) ''chrome-extension://''"
  by (simp add: getURL_def startsWith_def)

lemma checkAndBlockDomain_excluded:
  "startsWith url ''chrome://'' \<or> startsWith url ''chrome-extension://'' \<or>
   startsWith url ''about:'' \<or> includesStr url ''blocked.html'' \<Longrightarrow>
   checkAndBlockDomain URL_hostname extensionId stored url tabId = []"
  by (simp add: checkAndBlockDomain_def)

lemma checkAndBlockDomain_evaluated:
  "\<not> startsWith url ''chrome://'' \<Longrightarrow> \<not> startsWith url ''chrome-extension://'' \<Longrightarrow>
   \<not> startsWith url ''about:'' \<Longrightarrow> \<not> includesStr url ''blocked.html'' \<Longrightarrow>
   checkAndBlockDomain URL_hostname extensionId stored url tabId =
     (case URL_hostname url of
        None \<Rightarrow> [ConsoleError]
      | Some hostname \<Rightarrow>
          StoreQuery (normalizeDomain hostname) #
          (if isBlocked (normalizeDomain hostname) stored
           then [TabsUpdate tabId (getURL extensionId ''blocked.html'')] else []))"
  by (simp add: checkAndBlockDomain_def Let_def split: option.splits)

text \<open>
  Claim C1, amended. The evaluation stops at once, with no store query and no redirect,
  when the URL starts with \<open>chrome://\<close>, \<open>chrome-extension://\<close> or \<open>about:\<close>, or is the
  extension's own blocked page. A URL that starts with none of the three and does not
  contain the text \<open>blocked.html\<close> goes on to parsing: when the parse fails the evaluation
  ends with the error logged, no store query and no redirect; when it succeeds the host is
  normalized and the store is queried once, and the redirect follows the answer.
\<close>

theorem checkAndBlockDomain_exclusion:
  "(startsWith url ''chrome://'' \<or> startsWith url ''chrome-extension://'' \<or>
    startsWith url ''about:'' \<or> url = getURL extensionId ''blocked.html'' \<longrightarrow>
      checkAndBlockDomain URL_hostname extensionId stored url tabId = []) \<and>
   (\<not> startsWith url ''chrome://'' \<and> \<not> startsWith url ''chrome-extension://'' \<and>
    \<not> startsWith url ''about:'' \<and> \<not> includesStr url ''blocked.html'' \<longrightarrow>
      (URL_hostname url = None \<longrightarrow>
         checkAndBlockDomain URL_hostname extensionId stored url tabId = [ConsoleError]) \<and>
      (\<forall>hostname. URL_hostname url = Some hostname \<longrightarrow>
         checkAndBlockDomain URL_hostname extensionId stored url tabId =
           StoreQuery (normalizeDomain hostname) #
           (if isBlocked (normalizeDomain hostname) stored
            then [TabsUpdate tabId (getURL extensionId ''blocked.html'')] else [])))"
proof (intro conjI impI allI)
  assume "startsWith url ''chrome://'' \<or> startsWith url ''chrome-extension://'' \<or>
    startsWith url ''about:'' \<or> url = getURL extensionId ''blocked.html''"
  then have "startsWith url ''chrome://'' \<or> startsWith url ''chrome-extension://'' \<or>
    startsWith url ''about:'' \<or> includesStr url ''blocked.html''"
    using getURL_startsWith [of extensionId "''blocked.html''"] by auto
  then show "checkAndBlockDomain URL_hostname extensionId stored url tabId = []"
    by (rule checkAndBlockDomain_excluded)
next
  assume "\<not> startsWith url ''chrome://'' \<and> \<not> startsWith url ''chrome-extension://'' \<and>
    \<not> startsWith url ''about:'' \<and> \<not> includesStr url ''blocked.html''"
    and "URL_hostname url = None"
  then show "checkAndBlockDomain URL_hostname extensionId stored url tabId = [ConsoleError]"
    by (simp add: checkAndBlockDomain_evaluated)
next
  fix hostname
  assume "\<not> startsWith url ''chrome://'' \<and> \<not> startsWith url ''chrome-extension://'' \<and>
    \<not> startsWith url ''about:'' \<and> \<not> includesStr url ''blocked.html''"
    and "URL_hostname url = Some hostname"
  then show "checkAndBlockDomain URL_hostname extensionId stored url tabId =
      StoreQuery (normalizeDomain hostname) #
      (if isBlocked (normalizeDomain hostname) stored
       then [TabsUpdate tabId (getURL extensionId ''blocked.html'')] else [])"
    by (simp add: checkAndBlockDomain_evaluated)
qed

theorem checkAndBlockDomain_exclusion_witness:
  "checkAndBlockDomain [''https://example.com/page'' \<mapsto> ''example.com'']
     ''abcdefghijklmnopabcdefghijklmnop'' [\<lparr>domain = ''example.com'', enabled = True\<rparr>]
     ''chrome://settings'' 3 = [] \<and>
   checkAndBlockDomain [''https://example.com/page'' \<mapsto> ''example.com'']
     ''abcdefghijklmnopabcdefghijklmnop'' [\<lparr>domain = ''example.com'', enabled = True\<rparr>]
     ''https://example.com/page'' 3 =
     [StoreQuery ''example.com'',
      TabsUpdate 3 ''chrome-extension://abcdefghijklmnopabcdefghijklmnop/blocked.html''] \<and>
   checkAndBlockDomain [''https://example.com/page'' \<mapsto> ''example.com'']
     ''abcdefghijklmnopabcdefghijklmnop'' [\<lparr>domain = ''example.com'', enabled = True\<rparr>]
     ''example.com/page'' 3 = [ConsoleError]"
proof -
  let ?H = "[''https://example.com/page'' \<mapsto> ''example.com'']"
  let ?id = "''abcdefghijklmnopabcdefghijklmnop''"
  let ?stored = "[\<lparr>domain = ''example.com'', enabled = True\<rparr>]"
  have ex: "startsWith ''chrome://settings'' ''chrome://''" by code_simp
  have n1: "\<not> startsWith ''https://example.com/page'' ''chrome://''" by code_simp
  have n2: "\<not> startsWith ''https://example.com/page'' ''chrome-extension://''" by code_simp
  have n3: "\<not> startsWith ''https://example.com/page'' ''about:''" by code_simp
  have n4: "\<not> includesStr ''https://example.com/page'' ''blocked.html''" by code_simp
  have h: "?H ''https://example.com/page'' = Some ''example.com''" by simp
  have n: "normalizeDomain ''example.com'' = ''example.com''" by code_simp
  have b: "isBlocked ''example.com'' ?stored" by code_simp
  have u: "getURL ?id ''blocked.html'' =
      ''chrome-extension://abcdefghijklmnopabcdefghijklmnop/blocked.html''" by code_simp
  have first: "checkAndBlockDomain ?H ?id ?stored ''chrome://settings'' 3 = []"
    using checkAndBlockDomain_exclusion [of "''chrome://settings''" ?id ?H ?stored 3] ex
    by blast
  have second: "checkAndBlockDomain ?H ?id ?stored ''https://example.com/page'' 3 =
      StoreQuery (normalizeDomain ''example.com'') #
      (if isBlocked (normalizeDomain ''example.com'') ?stored
       then [TabsUpdate 3 (getURL ?id ''blocked.html'')] else [])"
    using checkAndBlockDomain_exclusion [of "''https://example.com/page''" ?id ?H ?stored 3]
      n1 n2 n3 n4 h
    by blast
  have m1: "\<not> startsWith ''example.com/page'' ''chrome://''" by code_simp
  have m2: "\<not> startsWith ''example.com/page'' ''chrome-extension://''" by code_simp
  have m3: "\<not> startsWith ''example.com/page'' ''about:''" by code_simp
  have m4: "\<not> includesStr ''example.com/page'' ''blocked.html''" by code_simp
  have g: "?H ''example.com/page'' = None" by simp
  have third: "checkAndBlockDomain ?H ?id ?stored ''example.com/page'' 3 = [ConsoleError]"
    using checkAndBlockDomain_exclusion [of "''example.com/page''" ?id ?H ?stored 3]
      m1 m2 m3 m4 g
    by blast
  show ?thesis
    using first second third by (simp only: n b u if_True simp_thms)
qed

text \<open>
  The exclusion test is \<open>url.includes('blocked.html')\<close>, so the page
  \<open>https://example.com/blocked.html\<close> of a blocked domain, which has none of the three
  schemes and is not the extension's page, is skipped with no store query. And the URL
  \<open>not a url\<close>, which is not excluded, ends without a store query as well, its parse failing.
\<close>

theorem checkAndBlockDomain_exclusion_too_wide:
  "\<not> startsWith ''https://example.com/blocked.html'' ''chrome://'' \<and>
   \<not> startsWith ''https://example.com/blocked.html'' ''chrome-extension://'' \<and>
   \<not> startsWith ''https://example.com/blocked.html'' ''about:'' \<and>
   ''https://example.com/blocked.html'' \<noteq>
     getURL ''abcdefghijklmnopabcdefghijklmnop'' ''blocked.html'' \<and>
   checkAndBlockDomain [''https://example.com/blocked.html'' \<mapsto> ''example.com'']
     ''abcdefghijklmnopabcdefghijklmnop'' [\<lparr>domain = ''example.com'', enabled = True\<rparr>]
     ''https://example.com/blocked.html'' 3 = [] \<and>
   \<not> startsWith ''not a url'' ''chrome://'' \<and>
   \<not> startsWith ''not a url'' ''chrome-extension://'' \<and>
   \<not> startsWith ''not a url'' ''about:'' \<and>
   ''not a url'' \<noteq> getURL ''abcdefghijklmnopabcdefghijklmnop'' ''blocked.html'' \<and>
   checkAndBlockDomain Map.empty ''abcdefghijklmnopabcdefghijklmnop''
     [\<lparr>domain = ''example.com'', enabled = True\<rparr>] ''not a url'' 3 = [ConsoleError]"
  by code_simp

lemma find_enabled:
  "distinct (map domain stored) \<Longrightarrow>
   (case find (\<lambda>d. domain d = n) stored of Some blocked \<Rightarrow> enabled blocked | None \<Rightarrow> False) \<longleftrightarrow>
   (\<exists>d \<in> set stored. domain d = n \<and> enabled d)"
proof (induction stored)
  case Nil
  then show ?case by simp
next
  case (Cons a stored)
  show ?case
  proof (cases "domain a = n")
    case True
    from Cons.prems have "domain a \<notin> set (map domain stored)"
      by simp
    then have "\<forall>d \<in> set stored. domain d \<noteq> domain a"
      by (simp add: image_iff) metis
    with True show ?thesis by auto
  next
    case False
    with Cons show ?thesis by auto
  qed
qed

text \<open>
  Claim C8, amended. For a URL that passes the exclusion filter and parses, the evaluation
  queries the store with the normalized host, and \<open>isBlocked\<close> normalizes its argument once
  more and takes the first entry of that domain: the tab is redirected to the blocked page
  exactly when the first entry whose domain is the twice normalized host is enabled, and
  nothing else happens. When the collection has at most one entry per domain and a second
  normalization leaves the normalized host as it is, this is: exactly when the store has
  an enabled entry whose domain is the normalized host. A committed navigation of a
  subframe (\<open>frameId \<noteq> 0\<close>) triggers no evaluation; one of the main frame triggers this one.
\<close>

theorem checkAndBlockDomain_redirect:
  assumes "\<not> startsWith url ''chrome://''" and "\<not> startsWith url ''chrome-extension://''"
    and "\<not> startsWith url ''about:''" and "\<not> includesStr url ''blocked.html''"
    and "URL_hostname url = Some hostname"
  shows "checkAndBlockDomain URL_hostname extensionId stored url tabId =
      StoreQuery (normalizeDomain hostname) #
      (if (case find (\<lambda>d. domain d = normalizeDomain (normalizeDomain hostname)) stored of
             Some blocked \<Rightarrow> enabled blocked
           | None \<Rightarrow> False)
       then [TabsUpdate tabId (getURL extensionId ''blocked.html'')] else []) \<and>
    (distinct (map domain stored) \<and>
     normalizeDomain (normalizeDomain hostname) = normalizeDomain hostname \<longrightarrow>
       (TabsUpdate tabId (getURL extensionId ''blocked.html'') \<in>
          set (checkAndBlockDomain URL_hostname extensionId stored url tabId) \<longleftrightarrow>
        (\<exists>d \<in> set stored. domain d = normalizeDomain hostname \<and> enabled d))) \<and>
    (frameId \<noteq> 0 \<longrightarrow> onCommitted URL_hostname extensionId stored frameId url tabId = []) \<and>
    onCommitted URL_hostname extensionId stored 0 url tabId =
      checkAndBlockDomain URL_hostname extensionId stored url tabId"
proof -
  let ?found = "case find (\<lambda>d. domain d = normalizeDomain (normalizeDomain hostname)) stored of
      Some blocked \<Rightarrow> enabled blocked | None \<Rightarrow> False"
  have eq: "checkAndBlockDomain URL_hostname extensionId stored url tabId =
      StoreQuery (normalizeDomain hostname) #
      (if ?found then [TabsUpdate tabId (getURL extensionId ''blocked.html'')] else [])"
    using assms by (simp add: checkAndBlockDomain_evaluated isBlocked_def Let_def)
  have "TabsUpdate tabId (getURL extensionId ''blocked.html'') \<in>
      set (checkAndBlockDomain URL_hostname extensionId stored url tabId) \<longleftrightarrow>
      (\<exists>d \<in> set stored. domain d = normalizeDomain hostname \<and> enabled d)"
    if d: "distinct (map domain stored)"
      and f: "normalizeDomain (normalizeDomain hostname) = normalizeDomain hostname"
  proof -
    have "TabsUpdate tabId (getURL extensionId ''blocked.html'') \<in>
        set (checkAndBlockDomain URL_hostname extensionId stored url tabId) \<longleftrightarrow> ?found"
      by (simp add: eq)
    also have "\<dots> \<longleftrightarrow>
        (\<exists>d \<in> set stored. domain d = normalizeDomain (normalizeDomain hostname) \<and> enabled d)"
      using d by (rule find_enabled)
    finally show ?thesis by (simp only: f)
  qed
  then show ?thesis
    using eq by (simp add: onCommitted_def)
qed

theorem checkAndBlockDomain_redirect_witness:
  "checkAndBlockDomain [''https://blocked-domain.com/page'' \<mapsto> ''blocked-domain.com'']
     ''abcdefghijklmnopabcdefghijklmnop'' [\<lparr>domain = ''blocked-domain.com'', enabled = True\<rparr>]
     ''https://blocked-domain.com/page'' 3 =
     [StoreQuery ''blocked-domain.com'',
      TabsUpdate 3 ''chrome-extension://abcdefghijklmnopabcdefghijklmnop/blocked.html''] \<and>
   TabsUpdate 3 (getURL ''abcdefghijklmnopabcdefghijklmnop'' ''blocked.html'') \<in>
     set (checkAndBlockDomain [''https://blocked-domain.com/page'' \<mapsto> ''blocked-domain.com'']
       ''abcdefghijklmnopabcdefghijklmnop'' [\<lparr>domain = ''blocked-domain.com'', enabled = True\<rparr>]
       ''https://blocked-domain.com/page'' 3) \<and>
   onCommitted [''https://blocked-domain.com/page'' \<mapsto> ''blocked-domain.com'']
     ''abcdefghijklmnopabcdefghijklmnop'' [\<lparr>domain = ''blocked-domain.com'', enabled = True\<rparr>]
     1 ''https://blocked-domain.com/page'' 3 = []"
proof -
  let ?url = "''https://blocked-domain.com/page''"
  let ?H = "[?url \<mapsto> ''blocked-domain.com'']"
  let ?id = "''abcdefghijklmnopabcdefghijklmnop''"
  let ?stored = "[\<lparr>domain = ''blocked-domain.com'', enabled = True\<rparr>]"
  have n1: "\<not> startsWith ?url ''chrome://''" by code_simp
  have n2: "\<not> startsWith ?url ''chrome-extension://''" by code_simp
  have n3: "\<not> startsWith ?url ''about:''" by code_simp
  have n4: "\<not> includesStr ?url ''blocked.html''" by code_simp
  have h: "?H ?url = Some ''blocked-domain.com''" by simp
  have n: "normalizeDomain ''blocked-domain.com'' = ''blocked-domain.com''" by code_simp
  have u: "getURL ?id ''blocked.html'' =
      ''chrome-extension://abcdefghijklmnopabcdefghijklmnop/blocked.html''" by code_simp
  have d: "distinct (map domain ?stored)" by simp
  have e: "\<exists>d \<in> set ?stored. domain d = ''blocked-domain.com'' \<and> enabled d" by simp
  note main = checkAndBlockDomain_redirect [where url = ?url and URL_hostname = ?H
      and hostname = "''blocked-domain.com''" and extensionId = ?id and stored = ?stored
      and tabId = 3 and frameId = 1, OF n1 n2 n3 n4 h]
  from main have first: "checkAndBlockDomain ?H ?id ?stored ?url 3 =
      [StoreQuery ''blocked-domain.com'',
       TabsUpdate 3 ''chrome-extension://abcdefghijklmnopabcdefghijklmnop/blocked.html'']"
    by (simp add: n u)
  from main [THEN conjunct2, THEN conjunct1] d e
  have second: "TabsUpdate 3 (getURL ?id ''blocked.html'') \<in>
      set (checkAndBlockDomain ?H ?id ?stored ?url 3)"
    by (simp only: n simp_thms)
  from main have third: "onCommitted ?H ?id ?stored 1 ?url 3 = []"
    by simp
  from first second third show ?thesis
    by (simp only: simp_thms)
qed

text \<open>
  With \<open>example.com\<close> blocked, the host \<open>www.www.example.com\<close> is redirected although no entry
  has its normalized form \<open>www.example.com\<close> as domain. And in a collection with a disabled
  entry of \<open>a.com\<close> before an enabled one, \<open>a.com\<close> is not redirected.
\<close>

theorem checkAndBlockDomain_redirect_without_entry:
  "checkAndBlockDomain [''https://www.www.example.com/'' \<mapsto> ''www.www.example.com'']
     ''abcdefghijklmnopabcdefghijklmnop'' [\<lparr>domain = ''example.com'', enabled = True\<rparr>]
     ''https://www.www.example.com/'' 3 =
     [StoreQuery ''www.example.com'',
      TabsUpdate 3 ''chrome-extension://abcdefghijklmnopabcdefghijklmnop/blocked.html''] \<and>
   normalizeDomain ''www.www.example.com'' = ''www.example.com'' \<and>
   ''www.example.com'' \<notin> domain ` set [\<lparr>domain = ''example.com'', enabled = True\<rparr>] \<and>
   checkAndBlockDomain [''https://a.com/'' \<mapsto> ''a.com'']
     ''abcdefghijklmnopabcdefghijklmnop''
     [\<lparr>domain = ''a.com'', enabled = False\<rparr>, \<lparr>domain = ''a.com'', enabled = True\<rparr>]
     ''https://a.com/'' 3 = [StoreQuery ''a.com''] \<and>
   normalizeDomain ''a.com'' = ''a.com''"
  by code_simp

end
